theory Spec2Isabelle
  imports Main
begin

section \<open>Python values, dictionaries and exceptions\<close>

text \<open>
  The route handlers of \<^verbatim>\<open>src/api/routes/ingest.py\<close> pass keyword dictionaries
  between the request models, the ORM and the database.  A dictionary keeps its
  insertion order, so it is an association list; a database row is looked up by
  column name, so it is a map.
\<close>

datatype pyval = PNone | PInt int | PStr string | PDatetime int | PList "pyval list"

type_synonym pydict = "(string \<times> pyval) list"

type_synonym row = "string \<rightharpoonup> pyval"

text \<open>
  Every \<^verbatim>\<open>raise\<close> of the handlers and every exception of the libraries they call
  is a value.  \<open>HTTPException\<close> carries \<^verbatim>\<open>status_code\<close> and \<^verbatim>\<open>detail\<close>; any other
  exception that leaves a handler is answered by the framework with status 500.
\<close>

datatype error =
    HTTPException nat string
  | AttributeError string
  | TypeError string
  | IntegrityError string
  | StatementError string
  | ValidationError string
  | DatabaseError string

fun status_code :: "error \<Rightarrow> nat" where
  "status_code (HTTPException c d) = c"
| "status_code e = 500"

definition quote :: "string \<Rightarrow> string" where
  "quote s = CHR 0x27 # s @ [CHR 0x27]"

fun str_nat :: "nat \<Rightarrow> string" where
  "str_nat n =
     (if n < 10 then [char_of (48 + n)]
      else str_nat (n div 10) @ [char_of (48 + n mod 10)])"

declare str_nat.simps [simp del]

definition str_int :: "int \<Rightarrow> string" where
  "str_int i = (if i < 0 then CHR ''-'' # str_nat (nat (- i)) else str_nat (nat i))"

definition not_found :: "int \<Rightarrow> error" where
  "not_found i = HTTPException 404 (''IngestProcess with id ('' @ str_int i @ '') not found'')"

definition forbidden :: error where
  "forbidden = HTTPException 403 ''User does not have access to create an object''"

definition NoneType_has_no_attribute :: "string \<Rightarrow> error" where
  "NoneType_has_no_attribute name =
     AttributeError (quote ''NoneType'' @ '' object has no attribute '' @ quote name)"

section \<open>The request models of \<^verbatim>\<open>src/api/models/ingest.py\<close>\<close>

text \<open>
  \<^verbatim>\<open>Post\<close> declares four optional fields and ignores every other key of the request
  body (\<^verbatim>\<open>extra = "ignore"\<close>).  \<open>model_fields_set\<close> is the set pydantic keeps of the
  fields the body gave explicitly.  \<^verbatim>\<open>Get\<close> extends \<^verbatim>\<open>Post\<close>; \<^verbatim>\<open>Patch\<close> is \<^verbatim>\<open>Post\<close>.
  An \<^verbatim>\<open>IngestState\<close> is named by its string.
\<close>

record Post =
  state :: "string option"
  comments :: "string option"
  source_id :: "int option"
  access_group_id :: "int option"
  model_fields_set :: "string set"

record Get = Post +
  id' :: int
  object_group_id :: int
  created_on :: int
  completed_on :: "int option"

type_synonym Patch = Post

text \<open>
  \<^verbatim>\<open>IngestProcessModel.Tag\<close> is used by the add-tag handler as \<^verbatim>\<open>tag.tag\<close>; its
  declaration is not among the sources, so it is the one-field model that use needs.
\<close>

record Tag =
  tag :: string

definition opt :: "('a \<Rightarrow> pyval) \<Rightarrow> 'a option \<Rightarrow> pyval" where
  "opt f x = (case x of None \<Rightarrow> PNone | Some v \<Rightarrow> f v)"

definition model_dump :: "Post \<Rightarrow> pydict" where
  "model_dump obj =
     [(''state'', opt PStr (state obj)),
      (''comments'', opt PStr (comments obj)),
      (''source_id'', opt PInt (source_id obj)),
      (''access_group_id'', opt PInt (access_group_id obj))]"

definition model_dump_exclude_unset :: "Post \<Rightarrow> pydict" where
  "model_dump_exclude_unset obj =
     filter (\<lambda>(k, v). k \<in> model_fields_set obj) (model_dump obj)"

text \<open>Attribute access on a \<^verbatim>\<open>Post\<close>: a declared field, or \<^verbatim>\<open>AttributeError\<close>.\<close>

definition Post_getattr :: "Post \<Rightarrow> string \<Rightarrow> error + pyval" where
  "Post_getattr obj name =
     (case map_of (model_dump obj) name of
        Some v \<Rightarrow> Inr v
      | None \<Rightarrow> Inl (AttributeError (quote ''Post'' @ '' object has no attribute '' @ quote name)))"

section \<open>The persistence store\<close>

text \<open>
  Modelled from the spec: the tables of \<^verbatim>\<open>api.schemas\<close> (\<^verbatim>\<open>Sources\<close>, \<^verbatim>\<open>ObjectGroup\<close>,
  \<^verbatim>\<open>Object\<close>, \<^verbatim>\<open>IngestProcess\<close>, \<^verbatim>\<open>IngestProcessTag\<close>) and the session of
  \<^verbatim>\<open>api.database\<close> are not among the sources.  The store holds the committed rows:
  sources and ingest processes by primary key, object groups as their ids, objects
  with the id of their group, and tag rows \<open>(ingest_process_id, tag)\<close> in insertion
  order, with no uniqueness constraint.  Ids come from two sequences and
  \<open>created_on\<close> from the store's clock.  A session statement of a handler
  (\<^verbatim>\<open>get\<close>, \<^verbatim>\<open>add\<close> with \<^verbatim>\<open>commit\<close>, \<^verbatim>\<open>update\<close>, \<^verbatim>\<open>delete\<close>) is the function on
  the store that its SQL denotes; what is not committed when an exception leaves
  the session block is dropped, and a \<^verbatim>\<open>get\<close> after a commit reads the committed
  rows.
\<close>

record Object =
  host :: string
  bucket :: string
  key :: string
  pre_signed_url :: "string option"

record database =
  sources :: "int \<rightharpoonup> row"
  object_group :: "int list"
  object :: "(int \<times> Object) list"
  ingest_process :: "int \<rightharpoonup> row"
  ingest_process_tag :: "(int \<times> string) list"
  object_group_id_seq :: int
  ingest_process_id_seq :: int
  clock :: int

text \<open>What a handler returns for an \<^verbatim>\<open>IngestProcessSchema\<close> instance.\<close>

record IngestProcessSchema =
  columns :: row
  tags :: "string list"
  source :: "row option"

definition tags_of :: "database \<Rightarrow> int \<Rightarrow> string list" where
  "tags_of db i = map snd (filter (\<lambda>(p, t). p = i) (ingest_process_tag db))"

text \<open>\<^verbatim>\<open>session.get(IngestProcessSchema, id)\<close>: the committed row with its tags.\<close>

definition session_get :: "database \<Rightarrow> int \<Rightarrow> IngestProcessSchema option" where
  "session_get db i =
     (case ingest_process db i of
        None \<Rightarrow> None
      | Some r \<Rightarrow>
          Some \<lparr>columns = r, tags = tags_of db i,
                source = (case r ''source_id'' of
                            Some (PInt s) \<Rightarrow> sources db s
                          | _ \<Rightarrow> None)\<rparr>)"

text \<open>The foreign key from \<open>source_id\<close> to \<^verbatim>\<open>Sources\<close>; a null references nothing.\<close>

definition fk_source_ok :: "database \<Rightarrow> row \<Rightarrow> bool" where
  "fk_source_ok db vals =
     (case vals ''source_id'' of
        Some (PInt s) \<Rightarrow> sources db s \<noteq> None
      | _ \<Rightarrow> True)"

text \<open>\<^verbatim>\<open>session.add(ObjectGroup()); await session.commit()\<close>: the new id, committed.\<close>

definition add_object_group :: "database \<Rightarrow> int \<times> database" where
  "add_object_group db =
     (let i = object_group_id_seq db
      in (i, db\<lparr>object_group := object_group db @ [i],
                object_group_id_seq := i + 1\<rparr>))"

text \<open>
  \<^verbatim>\<open>session.add(ingest_process); await session.commit()\<close>: one transaction that
  inserts the process row and its tag rows, or fails and commits nothing.
\<close>

definition add_ingest_process ::
  "database \<Rightarrow> row \<Rightarrow> string list \<Rightarrow> error + (int \<times> row \<times> database)" where
  "add_ingest_process db kwargs ts =
     (if \<not> fk_source_ok db kwargs
      then Inl (IntegrityError ''violates foreign key constraint'')
      else
        let i = ingest_process_id_seq db;
            r = kwargs(''id'' \<mapsto> PInt i, ''created_on'' \<mapsto> PDatetime (clock db),
                       ''completed_on'' \<mapsto> PNone)
        in Inr (i, r,
                db\<lparr>ingest_process := (ingest_process db)(i \<mapsto> r),
                   ingest_process_tag := ingest_process_tag db @ map (Pair i) ts,
                   ingest_process_id_seq := i + 1\<rparr>))"

section \<open>Create\<close>

text \<open>
  \<^verbatim>\<open>for tag in object.tags\<close> iterates a list, or the characters of a string;
  anything else is not iterable.
\<close>

fun iterate :: "pyval \<Rightarrow> error + pyval list" where
  "iterate (PList vs) = Inr vs"
| "iterate (PStr s) = Inr (map (\<lambda>c. PStr [c]) s)"
| "iterate PNone = Inl (TypeError (quote ''NoneType'' @ '' object is not iterable''))"
| "iterate (PInt i) = Inl (TypeError (quote ''int'' @ '' object is not iterable''))"
| "iterate (PDatetime d) = Inl (TypeError (quote ''datetime'' @ '' object is not iterable''))"

text \<open>\<^verbatim>\<open>IngestProcessTag(tag=tag)\<close> is stored in a string column.\<close>

fun tag_strings :: "pyval list \<Rightarrow> error + string list" where
  "tag_strings [] = Inr []"
| "tag_strings (PStr s # vs) =
     (case tag_strings vs of Inl e \<Rightarrow> Inl e | Inr ss \<Rightarrow> Inr (s # ss))"
| "tag_strings (v # vs) = Inl (StatementError ''tag is not a string'')"

text \<open>
  \<^verbatim>\<open>create_ingest_process\<close>, lines 71 to 101.  The object group is added and
  committed first; then \<^verbatim>\<open>object.tags\<close> is read, the process is built from
  \<^verbatim>\<open>object.model_dump()\<close>, the group's id and the tags, added and committed; last the
  source is attached.  \<^verbatim>\<open>del object.tags\<close> leaves the four declared fields to the
  dump.  An exception leaves the session block with whatever was committed
  before it.
\<close>

definition create_ingest_process ::
  "database \<Rightarrow> Post \<Rightarrow> bool \<Rightarrow> (error + IngestProcessSchema) \<times> database" where
  "create_ingest_process db obj user_has_access =
     (if \<not> user_has_access then (Inl forbidden, db)
      else
        let (og, db1) = add_object_group db
        in case Post_getattr obj ''tags'' of
             Inl e \<Rightarrow> (Inl e, db1)
           | Inr v \<Rightarrow>
               (case iterate v of
                  Inl e \<Rightarrow> (Inl e, db1)
                | Inr vs \<Rightarrow>
                    (case tag_strings vs of
                       Inl e \<Rightarrow> (Inl e, db1)
                     | Inr ts \<Rightarrow>
                         (case add_ingest_process db1
                                 ((map_of (model_dump obj))(''object_group_id'' \<mapsto> PInt og)) ts of
                            Inl e \<Rightarrow> (Inl e, db1)
                          | Inr (i, r, db2) \<Rightarrow>
                              (Inr \<lparr>columns = r, tags = ts,
                                    source = (case source_id obj of
                                                None \<Rightarrow> None
                                              | Some s \<Rightarrow> sources db2 s)\<rparr>,
                               db2)))))"

section \<open>Partial update\<close>

text \<open>
  \<^verbatim>\<open>update(IngestProcessSchema).where(id == id).values(**vals).returning(...)\<close>
  run by \<^verbatim>\<open>session.scalar\<close>: the updated row, or \<^verbatim>\<open>None\<close> when no row has the id.
  What the SQL toolkit and the database do with an empty \<^verbatim>\<open>SET\<close> list is decided
  outside this repository, so it is the parameter \<open>empty_set\<close>: the exception
  raised, or \<open>None\<close> when the statement runs and changes no column.
\<close>

definition execute_update ::
  "error option \<Rightarrow> database \<Rightarrow> int \<Rightarrow> pydict \<Rightarrow> error + (row option \<times> database)" where
  "execute_update empty_set db i vals =
     (case (if vals = [] then empty_set else None) of
        Some e \<Rightarrow> Inl e
      | None \<Rightarrow>
          (case ingest_process db i of
             None \<Rightarrow> Inr (None, db)
           | Some r \<Rightarrow>
               if \<not> fk_source_ok db (map_of vals)
               then Inl (IntegrityError ''violates foreign key constraint'')
               else
                 let r' = r ++ map_of vals
                 in Inr (Some r', db\<lparr>ingest_process := (ingest_process db)(i \<mapsto> r')\<rparr>)))"

text \<open>\<^verbatim>\<open>IngestProcessModel.Get(**server_object.__dict__)\<close>: the fields of \<^verbatim>\<open>Get\<close>, validated.\<close>

definition required_int :: "row \<Rightarrow> string \<Rightarrow> error + int" where
  "required_int r k =
     (case r k of Some (PInt n) \<Rightarrow> Inr n | _ \<Rightarrow> Inl (ValidationError k))"

definition required_datetime :: "row \<Rightarrow> string \<Rightarrow> error + int" where
  "required_datetime r k =
     (case r k of Some (PDatetime n) \<Rightarrow> Inr n | _ \<Rightarrow> Inl (ValidationError k))"

definition optional_int :: "row \<Rightarrow> string \<Rightarrow> error + int option" where
  "optional_int r k =
     (case r k of
        None \<Rightarrow> Inr None | Some PNone \<Rightarrow> Inr None | Some (PInt n) \<Rightarrow> Inr (Some n)
      | _ \<Rightarrow> Inl (ValidationError k))"

definition optional_datetime :: "row \<Rightarrow> string \<Rightarrow> error + int option" where
  "optional_datetime r k =
     (case r k of
        None \<Rightarrow> Inr None | Some PNone \<Rightarrow> Inr None | Some (PDatetime n) \<Rightarrow> Inr (Some n)
      | _ \<Rightarrow> Inl (ValidationError k))"

definition optional_str :: "row \<Rightarrow> string \<Rightarrow> error + string option" where
  "optional_str r k =
     (case r k of
        None \<Rightarrow> Inr None | Some PNone \<Rightarrow> Inr None | Some (PStr s) \<Rightarrow> Inr (Some s)
      | _ \<Rightarrow> Inl (ValidationError k))"

definition Get_fields :: "string list" where
  "Get_fields =
     [''state'', ''comments'', ''source_id'', ''access_group_id'',
      ''id'', ''object_group_id'', ''created_on'', ''completed_on'']"

definition Get_validate :: "row \<Rightarrow> error + Get" where
  "Get_validate r =
     (case optional_str r ''state'' of Inl e \<Rightarrow> Inl e | Inr st \<Rightarrow>
      case optional_str r ''comments'' of Inl e \<Rightarrow> Inl e | Inr co \<Rightarrow>
      case optional_int r ''source_id'' of Inl e \<Rightarrow> Inl e | Inr so \<Rightarrow>
      case optional_int r ''access_group_id'' of Inl e \<Rightarrow> Inl e | Inr ag \<Rightarrow>
      case required_int r ''id'' of Inl e \<Rightarrow> Inl e | Inr i \<Rightarrow>
      case required_int r ''object_group_id'' of Inl e \<Rightarrow> Inl e | Inr og \<Rightarrow>
      case required_datetime r ''created_on'' of Inl e \<Rightarrow> Inl e | Inr cr \<Rightarrow>
      case optional_datetime r ''completed_on'' of Inl e \<Rightarrow> Inl e | Inr cp \<Rightarrow>
        Inr \<lparr>state = st, comments = co, source_id = so, access_group_id = ag,
             model_fields_set = set (filter (\<lambda>k. r k \<noteq> None) Get_fields),
             id' = i, object_group_id = og, created_on = cr, completed_on = cp\<rparr>)"

text \<open>
  \<^verbatim>\<open>patch_ingest_process\<close>, lines 104 to 129.  The response is built from
  \<^verbatim>\<open>server_object.__dict__\<close> with no test for \<^verbatim>\<open>None\<close>; the commit is the last
  statement, so an exception before it leaves the store as it was.
\<close>

definition patch_ingest_process ::
  "error option \<Rightarrow> database \<Rightarrow> int \<Rightarrow> Patch \<Rightarrow> bool \<Rightarrow> (error + Get) \<times> database" where
  "patch_ingest_process empty_set db i obj user_has_access =
     (if \<not> user_has_access then (Inl forbidden, db)
      else
        case execute_update empty_set db i (model_dump_exclude_unset obj) of
          Inl e \<Rightarrow> (Inl e, db)
        | Inr (server_object, db') \<Rightarrow>
            (case server_object of
               None \<Rightarrow> (Inl (NoneType_has_no_attribute ''__dict__''), db)
             | Some r \<Rightarrow>
                 (case Get_validate r of
                    Inl e \<Rightarrow> (Inl e, db)
                  | Inr response \<Rightarrow> (Inr response, db'))))"

section \<open>Tags\<close>

text \<open>\<^verbatim>\<open>add_ingest_process_tag\<close>, lines 131 to 158: append, commit, load again.\<close>

definition append_tag_row :: "database \<Rightarrow> int \<Rightarrow> string \<Rightarrow> database" where
  "append_tag_row db i t = db\<lparr>ingest_process_tag := ingest_process_tag db @ [(i, t)]\<rparr>"

definition add_ingest_process_tag ::
  "database \<Rightarrow> int \<Rightarrow> Tag \<Rightarrow> bool \<Rightarrow> (error + string list) \<times> database" where
  "add_ingest_process_tag db i t user_has_access =
     (if \<not> user_has_access then (Inl forbidden, db)
      else
        case session_get db i of
          None \<Rightarrow> (Inl (not_found i), db)
        | Some p \<Rightarrow>
            let db' = append_tag_row db i (tag t)
            in (case session_get db' i of
                  None \<Rightarrow> (Inl (NoneType_has_no_attribute ''tags''), db')
                | Some p' \<Rightarrow> (Inr (tags p'), db')))"

text \<open>
  \<^verbatim>\<open>delete_ingest_process_tag\<close>, lines 160 to 185: one \<^verbatim>\<open>DELETE\<close> of every row with
  this process id and this tag, commit, load again.
\<close>

definition delete_tag_rows :: "database \<Rightarrow> int \<Rightarrow> string \<Rightarrow> database" where
  "delete_tag_rows db i t =
     db\<lparr>ingest_process_tag :=
          filter (\<lambda>(p, x). \<not> (p = i \<and> x = t)) (ingest_process_tag db)\<rparr>"

definition delete_ingest_process_tag ::
  "database \<Rightarrow> int \<Rightarrow> string \<Rightarrow> bool \<Rightarrow> (error + string list) \<times> database" where
  "delete_ingest_process_tag db i t user_has_access =
     (if \<not> user_has_access then (Inl forbidden, db)
      else
        case session_get db i of
          None \<Rightarrow> (Inl (not_found i), db)
        | Some p \<Rightarrow>
            let db' = delete_tag_rows db i t
            in (case session_get db' i of
                  None \<Rightarrow> (Inl (NoneType_has_no_attribute ''tags''), db')
                | Some p' \<Rightarrow> (Inr (tags p'), db')))"

section \<open>Objects with pre-signed URLs\<close>

text \<open>
  The object store is reached through \<^verbatim>\<open>os.environ\<close> and the \<^verbatim>\<open>minio\<close> client,
  neither of which is part of this repository: they are parameters.  A client is
  the endpoint with the two credentials; the constructor and
  \<^verbatim>\<open>presigned_get_object\<close> either raise, which is \<open>Inl\<close> of the exception's text, or
  return.  Every call made to the client is recorded.
\<close>

type_synonym minio_client = "string \<times> string \<times> string"

record object_store =
  environ :: "string \<rightharpoonup> string"
  Minio :: "minio_client \<Rightarrow> string + unit"
  presigned_get_object :: "minio_client \<Rightarrow> string \<Rightarrow> string \<Rightarrow> string + string"

datatype store_call = Minio_call string | presigned_get_object_call string string

text \<open>\<^verbatim>\<open>os.environ[name]\<close>: the value, or \<^verbatim>\<open>KeyError(name)\<close>, whose text is the quoted name.\<close>

definition environ_getitem :: "object_store \<Rightarrow> string \<Rightarrow> string + string" where
  "environ_getitem st name =
     (case environ st name of None \<Rightarrow> Inl (quote name) | Some v \<Rightarrow> Inr v)"

text \<open>
  The loop of lines 212 and 213: the objects with their URLs attached, or the text
  of the first exception; with it, the calls made.
\<close>

fun attach_urls ::
  "object_store \<Rightarrow> minio_client \<Rightarrow> Object list \<Rightarrow> (string + Object list) \<times> store_call list" where
  "attach_urls st m [] = (Inr [], [])"
| "attach_urls st m (obj # objs) =
     (case presigned_get_object st m (bucket obj) (key obj) of
        Inl e \<Rightarrow> (Inl e, [presigned_get_object_call (bucket obj) (key obj)])
      | Inr url \<Rightarrow>
          (case attach_urls st m objs of
             (Inl e, calls) \<Rightarrow> (Inl e, presigned_get_object_call (bucket obj) (key obj) # calls)
           | (Inr objs', calls) \<Rightarrow>
               (Inr (obj\<lparr>pre_signed_url := Some url\<rparr> # objs'),
                presigned_get_object_call (bucket obj) (key obj) # calls)))"

text \<open>The body of the \<^verbatim>\<open>try\<close>, lines 208 to 215; \<open>Inl\<close> is the text of the exception.\<close>

definition secure_urls ::
  "object_store \<Rightarrow> Object list \<Rightarrow> (string + Object list) \<times> store_call list" where
  "secure_urls st schema_objects =
     (case schema_objects of
        [] \<Rightarrow> (Inl ''list index out of range'', [])
      | first_object # rest \<Rightarrow>
          (case environ_getitem st ''access_key'' of
             Inl e \<Rightarrow> (Inl e, [])
           | Inr ak \<Rightarrow>
               (case environ_getitem st ''secret_key'' of
                  Inl e \<Rightarrow> (Inl e, [])
                | Inr sk \<Rightarrow>
                    (case Minio st (host first_object, ak, sk) of
                       Inl e \<Rightarrow> (Inl e, [Minio_call (host first_object)])
                     | Inr u \<Rightarrow>
                         (case attach_urls st (host first_object, ak, sk) schema_objects of
                            (res, calls) \<Rightarrow> (res, Minio_call (host first_object) # calls))))))"

definition failed_secure_url :: "string \<Rightarrow> error" where
  "failed_secure_url e = HTTPException 500 (''Failed to get secure url for object: '' @ e)"

text \<open>
  \<^verbatim>\<open>get_ingest_process_objects\<close>, lines 188 to 221.  The process and its object group
  are read with \<^verbatim>\<open>scalar\<close>, which is \<^verbatim>\<open>None\<close> when there is no row, and used with no
  test for \<^verbatim>\<open>None\<close>.  An empty group returns before the \<^verbatim>\<open>try\<close>.
\<close>

definition objects_of :: "database \<Rightarrow> int \<Rightarrow> Object list" where
  "objects_of db og = map snd (filter (\<lambda>(g, obj). g = og) (object db))"

definition get_ingest_process_objects ::
  "object_store \<Rightarrow> database \<Rightarrow> int \<Rightarrow> (error + Object list) \<times> store_call list" where
  "get_ingest_process_objects st db i =
     (case ingest_process db i of
        None \<Rightarrow> (Inl (NoneType_has_no_attribute ''object_group_id''), [])
      | Some r \<Rightarrow>
          (case (case r ''object_group_id'' of
                   Some (PInt og) \<Rightarrow> if og \<in> set (object_group db) then Some og else None
                 | _ \<Rightarrow> None) of
             None \<Rightarrow> (Inl (NoneType_has_no_attribute ''objects''), [])
           | Some og \<Rightarrow>
               let schema_objects = objects_of db og
               in if length schema_objects = 0 then (Inr [], [])
                  else
                    (case secure_urls st schema_objects of
                       (Inl e, calls) \<Rightarrow> (Inl (failed_secure_url e), calls)
                     | (Inr objs, calls) \<Rightarrow> (Inr objs, calls))))"

section \<open>An example store\<close>

text \<open>
  One source (7), one object group (1), one ingest process (1) of that source and
  group carrying the tag \<open>alpha\<close>; a second store whose group holds two objects; an
  object store that signs every key but \<open>b.csv\<close>.
\<close>

definition row1 :: row where
  "row1 =
     [''id'' \<mapsto> PInt 1, ''state'' \<mapsto> PStr ''pending'', ''comments'' \<mapsto> PNone,
      ''source_id'' \<mapsto> PInt 7, ''access_group_id'' \<mapsto> PNone,
      ''object_group_id'' \<mapsto> PInt 1, ''created_on'' \<mapsto> PDatetime 1000,
      ''completed_on'' \<mapsto> PNone]"

definition db0 :: database where
  "db0 =
     \<lparr>sources = [7 \<mapsto> [''id'' \<mapsto> PInt 7]],
      object_group = [1],
      object = [],
      ingest_process = [1 \<mapsto> row1],
      ingest_process_tag = [(1, ''alpha'')],
      object_group_id_seq = 2,
      ingest_process_id_seq = 2,
      clock = 2000\<rparr>"

definition object_a :: Object where
  "object_a = \<lparr>host = ''store.example.org'', bucket = ''maps'', key = ''a.csv'',
               pre_signed_url = None\<rparr>"

definition object_b :: Object where
  "object_b = \<lparr>host = ''store.example.org'', bucket = ''maps'', key = ''b.csv'',
               pre_signed_url = None\<rparr>"

definition db_objects :: database where
  "db_objects = db0\<lparr>object := [(1, object_a), (1, object_b)]\<rparr>"

definition store0 :: object_store where
  "store0 =
     \<lparr>environ = [''access_key'' \<mapsto> ''AK'', ''secret_key'' \<mapsto> ''SK''],
      Minio = (\<lambda>m. Inr ()),
      presigned_get_object =
        (\<lambda>m b k. if k = ''b.csv'' then Inl ''S3Error'' else Inr (''https://'' @ b @ ''/'' @ k))\<rparr>"

text \<open>
  The request bodies \<^verbatim>\<open>{state: "pending", source_id: 99, tags: ["batch-1"]}\<close> and
  \<^verbatim>\<open>{state: "pending", source_id: 7, tags: ["batch-1"]}\<close> as \<^verbatim>\<open>Post\<close> holds them (the
  key \<^verbatim>\<open>tags\<close> is not a field and is ignored), and the body \<^verbatim>\<open>{comments: "x"}\<close>.
\<close>

definition post99 :: Post where
  "post99 =
     \<lparr>state = Some ''pending'', comments = None, source_id = Some 99,
      access_group_id = None, model_fields_set = {''state'', ''source_id''}\<rparr>"

definition post7 :: Post where
  "post7 =
     \<lparr>state = Some ''pending'', comments = None, source_id = Some 7,
      access_group_id = None, model_fields_set = {''state'', ''source_id''}\<rparr>"

definition patch_comments :: Patch where
  "patch_comments =
     \<lparr>state = None, comments = Some ''x'', source_id = None,
      access_group_id = None, model_fields_set = {''comments''}\<rparr>"

section \<open>Facts about the model\<close>

lemma str_int_999: "str_int 999 = ''999''"
  by code_simp

lemma Post_getattr_tags:
  "Post_getattr obj ''tags''
     = Inl (AttributeError (quote ''Post'' @ '' object has no attribute '' @ quote ''tags''))"
  by (simp add: Post_getattr_def model_dump_def)

lemma create_stops_at_tags:
  "create_ingest_process db obj True =
     (Inl (AttributeError (quote ''Post'' @ '' object has no attribute '' @ quote ''tags'')),
      db\<lparr>object_group := object_group db @ [object_group_id_seq db],
         object_group_id_seq := object_group_id_seq db + 1\<rparr>)"
  by (simp add: create_ingest_process_def add_object_group_def Post_getattr_tags Let_def)

lemma Post_getattr_status: "Post_getattr obj name = Inl e \<Longrightarrow> status_code e = 500"
  by (auto simp: Post_getattr_def split: option.splits)

lemma iterate_status: "iterate v = Inl e \<Longrightarrow> status_code e = 500"
  by (cases v) auto

lemma tag_strings_status: "tag_strings vs = Inl e \<Longrightarrow> status_code e = 500"
  by (induction vs arbitrary: e rule: tag_strings.induct) (auto split: sum.splits)

lemma filter_rows_tags:
  "map snd (filter (\<lambda>(p, x). p = i) (filter (\<lambda>(p, x). \<not> (p = i \<and> x = t)) rows))
     = filter (\<lambda>x. x \<noteq> t) (map snd (filter (\<lambda>(p, x). p = i) rows))"
  by (induction rows) auto

lemma filter_rows_absent:
  "t \<notin> set (map snd (filter (\<lambda>(p, x). p = i) rows)) \<Longrightarrow>
     filter (\<lambda>(p, x). \<not> (p = i \<and> x = t)) rows = rows"
  by (induction rows) (auto split: if_splits)

lemma tags_of_delete:
  "tags_of (delete_tag_rows db i t) i = filter (\<lambda>x. x \<noteq> t) (tags_of db i)"
proof -
  have sel: "ingest_process_tag (db\<lparr>ingest_process_tag := rows\<rparr>) = rows" for rows
    by simp
  have "ingest_process_tag (delete_tag_rows db i t)
      = filter (\<lambda>(p, x). \<not> (p = i \<and> x = t)) (ingest_process_tag db)"
    unfolding delete_tag_rows_def by (rule sel)
  then show ?thesis
    unfolding tags_of_def by (simp only: filter_rows_tags)
qed

lemma delete_tag_rows_absent:
  assumes "t \<notin> set (tags_of db i)"
  shows "delete_tag_rows db i t = db"
proof -
  from assms
  have "filter (\<lambda>(p, x). \<not> (p = i \<and> x = t)) (ingest_process_tag db) = ingest_process_tag db"
    unfolding tags_of_def by (rule filter_rows_absent)
  then show ?thesis
    unfolding delete_tag_rows_def by simp
qed

lemma tags_of_append:
  "tags_of (append_tag_row db i t) i = tags_of db i @ [t]"
  by (simp add: tags_of_def append_tag_row_def)

lemma ingest_process_tag_rows [simp]:
  "ingest_process (delete_tag_rows db i t) = ingest_process db"
  "ingest_process (append_tag_row db i t) = ingest_process db"
  by (simp_all add: delete_tag_rows_def append_tag_row_def)

lemma tags_of_db0: "tags_of db0 1 = [''alpha'']"
  by (simp add: tags_of_def db0_def)

lemma ingest_process_db0: "ingest_process db0 1 = Some row1"
  by (simp add: db0_def)

lemma attach_urls_fails:
  assumes "obj \<in> set objs" and "isl (presigned_get_object st m (bucket obj) (key obj))"
  shows "\<exists>e x. x \<in> set objs \<and> presigned_get_object st m (bucket x) (key x) = Inl e
           \<and> fst (attach_urls st m objs) = Inl e"
  using assms
proof (induction objs)
  case Nil
  then show ?case by simp
next
  case (Cons x xs)
  show ?case
  proof (cases "presigned_get_object st m (bucket x) (key x)")
    case (Inl e)
    then show ?thesis by auto
  next
    case (Inr url)
    with Cons.prems have "obj \<in> set xs" by auto
    with Cons.IH Cons.prems(2) obtain e y where
      "y \<in> set xs" "presigned_get_object st m (bucket y) (key y) = Inl e"
      "fst (attach_urls st m xs) = Inl e" by blast
    with Inr show ?thesis by (auto split: prod.splits sum.splits)
  qed
qed

lemma attach_urls_complete:
  "fst (attach_urls st m objs) = Inr objs' \<Longrightarrow>
     length objs' = length objs \<and> (\<forall>x \<in> set objs'. pre_signed_url x \<noteq> None)"
  by (induction objs arbitrary: objs') (auto split: prod.splits sum.splits)

lemma secure_urls_Cons:
  assumes "environ st ''access_key'' = Some ak" and "environ st ''secret_key'' = Some sk"
    and "Minio st (host x, ak, sk) = Inr u"
  shows "fst (secure_urls st (x # xs)) = fst (attach_urls st (host x, ak, sk) (x # xs))"
  using assms by (simp add: secure_urls_def environ_getitem_def split: prod.splits)

lemma secure_urls_complete:
  assumes "secure_urls st objs = (Inr objs', calls)"
  shows "length objs' = length objs \<and> (\<forall>x \<in> set objs'. pre_signed_url x \<noteq> None)"
proof -
  from assms obtain m c where "attach_urls st m objs = (Inr objs', c)"
    by (auto simp del: attach_urls.simps simp: secure_urls_def
        split: list.splits sum.splits prod.splits)
  then have "fst (attach_urls st m objs) = Inr objs'" by simp
  then show ?thesis by (rule attach_urls_complete)
qed

text \<open>A list the objects-listing call returns is never partial: each object has its URL.\<close>

lemma listing_returns_complete_lists:
  assumes "fst (get_ingest_process_objects st db i) = Inr objs'"
  shows "\<forall>x \<in> set objs'. pre_signed_url x \<noteq> None"
proof -
  from assms obtain calls where "get_ingest_process_objects st db i = (Inr objs', calls)"
    by (cases "get_ingest_process_objects st db i") auto
  then have "objs' = [] \<or> (\<exists>objs c. secure_urls st objs = (Inr objs', c))"
    by (auto simp: get_ingest_process_objects_def Let_def
        split: option.splits pyval.splits if_splits prod.splits sum.splits)
  then show ?thesis using secure_urls_complete by auto
qed

lemma map_of_exclude_unset:
  "map_of (model_dump_exclude_unset obj) k =
     (if k \<in> model_fields_set obj then map_of (model_dump obj) k else None)"
  by (simp add: model_dump_exclude_unset_def model_dump_def)

lemma execute_update_cases:
  assumes "ingest_process db i = Some r"
  shows "(\<exists>e. execute_update empty_set db i vals = Inl e)
       \<or> execute_update empty_set db i vals
           = Inr (Some (r ++ map_of vals),
                  db\<lparr>ingest_process := (ingest_process db)(i \<mapsto> r ++ map_of vals)\<rparr>)"
  using assms by (auto simp: execute_update_def Let_def split: option.splits)

lemma patch_cases:
  assumes "ingest_process db i = Some r"
  shows "(\<exists>e. patch_ingest_process empty_set db i obj user_has_access = (Inl e, db))
       \<or> (\<exists>resp. Get_validate (r ++ map_of (model_dump_exclude_unset obj)) = Inr resp \<and>
            patch_ingest_process empty_set db i obj user_has_access
              = (Inr resp, db\<lparr>ingest_process :=
                   (ingest_process db)(i \<mapsto> r ++ map_of (model_dump_exclude_unset obj))\<rparr>))"
  using execute_update_cases [OF assms, of empty_set "model_dump_exclude_unset obj"]
  by (auto simp: patch_ingest_process_def split: sum.splits)

section \<open>Create: unknown source, and tags\<close>

text \<open>
  A create request for the unknown source 99 on the example store: the handler
  raises \<^verbatim>\<open>AttributeError\<close>, not a validation failure, and the object group it
  committed first, with id 2, is in the store afterwards.
\<close>

theorem create_unknown_source_leaves_object_group:
  "sources db0 99 = None
   \<and> source_id post99 = Some 99
   \<and> fst (create_ingest_process db0 post99 True)
       = Inl (AttributeError (quote ''Post'' @ '' object has no attribute '' @ quote ''tags''))
   \<and> object_group db0 = [1]
   \<and> object_group (snd (create_ingest_process db0 post99 True)) = [1, 2]"
  by (simp add: create_stops_at_tags) (simp add: db0_def post99_def)

text \<open>
  C1, as amended.  For every create request of a caller with access whose
  \<open>source_id\<close> references no existing source, the create operation fails with an
  exception that is answered with status 500, no ingest process and no tag row is
  persisted, and the object group written and committed by the first write stays
  persisted: it is not rolled back.  The proof splits on what reading
  \<^verbatim>\<open>object.tags\<close> gives and holds either way.
\<close>

theorem create_unknown_source_fails_after_commit:
  assumes "source_id obj = Some s" and "sources db s = None"
  shows "(\<exists>e. fst (create_ingest_process db obj True) = Inl e \<and> status_code e = 500)
    \<and> ingest_process (snd (create_ingest_process db obj True)) = ingest_process db
    \<and> ingest_process_tag (snd (create_ingest_process db obj True)) = ingest_process_tag db
    \<and> object_group (snd (create_ingest_process db obj True))
        = object_group db @ [object_group_id_seq db]"
  using assms
  by (auto simp: create_ingest_process_def add_object_group_def add_ingest_process_def
      fk_source_ok_def model_dump_def opt_def Let_def
      dest: Post_getattr_status iterate_status tag_strings_status split: sum.splits)

theorem create_unknown_source_fails_after_commit_witness:
  "source_id post99 = Some 99 \<and> sources db0 99 = None
    \<and> isl (fst (create_ingest_process db0 post99 True))
    \<and> ingest_process (snd (create_ingest_process db0 post99 True)) = ingest_process db0
    \<and> object_group (snd (create_ingest_process db0 post99 True)) = [1, 2]"
proof -
  have h1: "source_id post99 = Some 99" by (simp add: post99_def)
  have h2: "sources db0 99 = None" by (simp add: db0_def)
  have "object_group db0 @ [object_group_id_seq db0] = [1, 2]" by (simp add: db0_def)
  with create_unknown_source_fails_after_commit [OF h1 h2] h1 h2 show ?thesis by auto
qed

text \<open>
  C3.  The claim is that a create request carrying tag strings returns a process
  whose tags are those strings.  The handler reads \<^verbatim>\<open>object.tags\<close>, and \<^verbatim>\<open>Post\<close>
  declares no such field: for the request
  \<^verbatim>\<open>{state: "pending", source_id: 7, tags: ["batch-1"]}\<close> on the example store, where
  source 7 exists, the handler raises \<^verbatim>\<open>AttributeError\<close>, persists no ingest
  process and no tag row, and leaves the new object group 2 behind.
\<close>

theorem create_with_tags_raises_AttributeError:
  "sources db0 7 = Some [''id'' \<mapsto> PInt 7]
   \<and> fst (create_ingest_process db0 post7 True)
       = Inl (AttributeError (quote ''Post'' @ '' object has no attribute '' @ quote ''tags''))
   \<and> ingest_process (snd (create_ingest_process db0 post7 True)) = ingest_process db0
   \<and> ingest_process_tag (snd (create_ingest_process db0 post7 True)) = ingest_process_tag db0
   \<and> object_group (snd (create_ingest_process db0 post7 True)) = [1, 2]"
  by (simp add: create_stops_at_tags) (simp add: db0_def)

section \<open>Missing ids\<close>

text \<open>
  C2.  The claim is that patching an id no row has returns \<^verbatim>\<open>NotFound\<close>.  The
  handler builds the response from \<^verbatim>\<open>server_object.__dict__\<close> with no test for
  \<^verbatim>\<open>None\<close>: patching id 999 of the example store with \<^verbatim>\<open>{comments: "x"}\<close> raises
  \<^verbatim>\<open>AttributeError\<close>, which is answered with status 500, where the add-tag
  handler answers the same id with status 404.
\<close>

theorem patch_missing_id_raises_AttributeError:
  "ingest_process db0 999 = None
   \<and> patch_ingest_process empty_set db0 999 patch_comments True
       = (Inl (AttributeError
                 (quote ''NoneType'' @ '' object has no attribute '' @ quote ''__dict__'')),
          db0)
   \<and> status_code (NoneType_has_no_attribute ''__dict__'') = 500
   \<and> add_ingest_process_tag db0 999 t True
       = (Inl (HTTPException 404 ''IngestProcess with id (999) not found''), db0)"
  by (simp add: patch_ingest_process_def execute_update_def model_dump_exclude_unset_def
      model_dump_def patch_comments_def db0_def NoneType_has_no_attribute_def
      add_ingest_process_tag_def session_get_def not_found_def str_int_999)

text \<open>
  C4.  The claim is that listing the objects of an id no ingest process has gives a
  distinct \<^verbatim>\<open>NotFound\<close> outcome.  The handler reads
  \<^verbatim>\<open>ingest_process.object_group_id\<close> with no test for \<^verbatim>\<open>None\<close>: for id 999 of the
  example store it raises \<^verbatim>\<open>AttributeError\<close>, which is answered with status 500,
  where the delete-tag handler answers the same id with status 404.
\<close>

theorem objects_missing_id_raises_AttributeError:
  "ingest_process db0 999 = None
   \<and> get_ingest_process_objects st db0 999
       = (Inl (AttributeError
                 (quote ''NoneType'' @ '' object has no attribute '' @ quote ''object_group_id'')),
          [])
   \<and> status_code (NoneType_has_no_attribute ''object_group_id'') = 500
   \<and> delete_ingest_process_tag db0 999 t True
       = (Inl (HTTPException 404 ''IngestProcess with id (999) not found''), db0)"
  by (simp add: get_ingest_process_objects_def db0_def NoneType_has_no_attribute_def
      delete_ingest_process_tag_def session_get_def not_found_def str_int_999)

section \<open>Partial update is sparse\<close>

text \<open>
  C6.  For every patch request on an existing process, whatever its outcome, the
  process is still there and every column whose field the request body did not
  give explicitly keeps its prior value, as does every column that is not a field
  of \<^verbatim>\<open>Patch\<close>; when the patch succeeds, each field the body gave holds the given
  value; the tag rows are never touched.
\<close>

theorem patch_is_sparse:
  assumes "ingest_process db i = Some r"
  shows "\<exists>r'. ingest_process (snd (patch_ingest_process empty_set db i obj user_has_access)) i
            = Some r'
     \<and> (\<forall>k. k \<notin> model_fields_set obj \<longrightarrow> r' k = r k)
     \<and> (\<forall>k. map_of (model_dump obj) k = None \<longrightarrow> r' k = r k)
     \<and> (\<forall>resp k v.
           fst (patch_ingest_process empty_set db i obj user_has_access) = Inr resp \<longrightarrow>
           k \<in> model_fields_set obj \<longrightarrow> map_of (model_dump obj) k = Some v \<longrightarrow>
           r' k = Some v)
     \<and> ingest_process_tag (snd (patch_ingest_process empty_set db i obj user_has_access))
         = ingest_process_tag db"
  using patch_cases [OF assms, of empty_set obj user_has_access] assms
  by (auto simp: map_add_def map_of_exclude_unset)

theorem patch_is_sparse_witness:
  "ingest_process db0 1 = Some row1
    \<and> (\<exists>r'. ingest_process (snd (patch_ingest_process None db0 1 patch_comments True)) 1
              = Some r'
          \<and> r' ''comments'' = Some (PStr ''x'')
          \<and> r' ''state'' = Some (PStr ''pending'')
          \<and> r' ''source_id'' = Some (PInt 7))
    \<and> tags_of (snd (patch_ingest_process None db0 1 patch_comments True)) 1 = [''alpha'']"
proof -
  note h = ingest_process_db0
  have ok: "fst (patch_ingest_process None db0 1 patch_comments True)
      = Inr \<lparr>state = Some ''pending'', comments = Some ''x'', source_id = Some 7,
             access_group_id = None, model_fields_set = set Get_fields,
             id' = 1, object_group_id = 1, created_on = 1000, completed_on = None\<rparr>"
    by (simp add: patch_ingest_process_def execute_update_def model_dump_exclude_unset_def
        model_dump_def patch_comments_def db0_def row1_def fk_source_ok_def opt_def
        Get_validate_def Get_fields_def optional_str_def optional_int_def required_int_def
        required_datetime_def optional_datetime_def map_add_def Let_def)
  from patch_is_sparse [OF h, of None patch_comments True] obtain r' where
    r: "ingest_process (snd (patch_ingest_process None db0 1 patch_comments True)) 1 = Some r'"
    and frame: "\<And>k. k \<notin> model_fields_set patch_comments \<Longrightarrow> r' k = row1 k"
    and given: "\<And>resp k v.
           fst (patch_ingest_process None db0 1 patch_comments True) = Inr resp \<Longrightarrow>
           k \<in> model_fields_set patch_comments \<Longrightarrow>
           map_of (model_dump patch_comments) k = Some v \<Longrightarrow> r' k = Some v"
    and tg: "ingest_process_tag (snd (patch_ingest_process None db0 1 patch_comments True))
           = ingest_process_tag db0"
    by blast
  have "r' ''comments'' = Some (PStr ''x'')"
    by (rule given [OF ok]) (simp_all add: patch_comments_def model_dump_def opt_def)
  moreover have "r' ''state'' = Some (PStr ''pending'')"
    using frame [of "''state''"] by (simp add: patch_comments_def row1_def)
  moreover have "r' ''source_id'' = Some (PInt 7)"
    using frame [of "''source_id''"] by (simp add: patch_comments_def row1_def)
  moreover have "tags_of (snd (patch_ingest_process None db0 1 patch_comments True)) 1 = [''alpha'']"
    using tg by (simp add: tags_of_def db0_def)
  ultimately show ?thesis using h r by simp
qed

section \<open>Deleting and adding tags\<close>

text \<open>
  C8.  For every existing process and every tag string, delete-tag by a caller with
  access succeeds, removes exactly the tag rows of that process with that tag, all
  duplicates included, and returns the remaining tags in their order; when the tag
  is not among the process's tags, it returns the tag list unchanged and the store
  is as it was.
\<close>

theorem delete_tag_by_value:
  assumes "ingest_process db i = Some r"
  shows "delete_ingest_process_tag db i t True =
      (Inr (filter (\<lambda>x. x \<noteq> t) (tags_of db i)),
       db\<lparr>ingest_process_tag :=
            filter (\<lambda>(p, x). \<not> (p = i \<and> x = t)) (ingest_process_tag db)\<rparr>)
    \<and> (t \<notin> set (tags_of db i) \<longrightarrow>
         delete_ingest_process_tag db i t True = (Inr (tags_of db i), db))"
proof -
  have del: "delete_ingest_process_tag db i t True =
      (Inr (filter (\<lambda>x. x \<noteq> t) (tags_of db i)), delete_tag_rows db i t)"
    using assms
    by (simp add: delete_ingest_process_tag_def session_get_def tags_of_delete Let_def)
  have "delete_ingest_process_tag db i t True = (Inr (tags_of db i), db)"
    if "t \<notin> set (tags_of db i)"
  proof -
    from that have "filter (\<lambda>x. x \<noteq> t) (tags_of db i) = tags_of db i"
      by (auto simp: filter_id_conv)
    with del that show ?thesis by (simp add: delete_tag_rows_absent)
  qed
  with del show ?thesis unfolding delete_tag_rows_def by blast
qed

theorem delete_tag_by_value_witness:
  "ingest_process db0 1 = Some row1
    \<and> ''beta'' \<notin> set (tags_of db0 1)
    \<and> delete_ingest_process_tag db0 1 ''beta'' True = (Inr [''alpha''], db0)
    \<and> fst (delete_ingest_process_tag db0 1 ''alpha'' True) = Inr []"
proof -
  note h = ingest_process_db0 and t = tags_of_db0
  from delete_tag_by_value [OF h, of "''beta''", THEN conjunct2] t
  have "delete_ingest_process_tag db0 1 ''beta'' True = (Inr [''alpha''], db0)" by simp
  moreover from delete_tag_by_value [OF h, of "''alpha''", THEN conjunct1] t
  have "fst (delete_ingest_process_tag db0 1 ''alpha'' True) = Inr []" by simp
  ultimately show ?thesis using h t by simp
qed

text \<open>
  Adding the tag \<open>alpha\<close> to the example process, which carries it already, and then
  deleting \<open>alpha\<close> returns the empty list, not the list \<open>[alpha]\<close> from before the two
  calls.
\<close>

theorem add_then_delete_present_tag:
  "tags_of db0 1 = [''alpha'']
   \<and> fst (add_ingest_process_tag db0 1 \<lparr>tag = ''alpha''\<rparr> True) = Inr [''alpha'', ''alpha'']
   \<and> fst (delete_ingest_process_tag
             (snd (add_ingest_process_tag db0 1 \<lparr>tag = ''alpha''\<rparr> True)) 1 ''alpha'' True)
       = Inr []"
  by (simp add: add_ingest_process_tag_def delete_ingest_process_tag_def session_get_def
      tags_of_def db0_def append_tag_row_def delete_tag_rows_def)

text \<open>
  C9, as amended.  For every existing process and every tag string that is not
  among the process's tags, add-tag and then delete-tag of that string, by a caller
  with access, returns the tag list from before the two calls; add-tag itself
  returns that list with the string appended.
\<close>

theorem add_then_delete_fresh_tag:
  assumes "ingest_process db i = Some r" and "tag t \<notin> set (tags_of db i)"
  shows "fst (add_ingest_process_tag db i t True) = Inr (tags_of db i @ [tag t])
    \<and> fst (delete_ingest_process_tag (snd (add_ingest_process_tag db i t True)) i (tag t) True)
        = Inr (tags_of db i)"
proof -
  let ?db' = "append_tag_row db i (tag t)"
  have add: "add_ingest_process_tag db i t True = (Inr (tags_of db i @ [tag t]), ?db')"
    using assms(1) by (simp add: add_ingest_process_tag_def session_get_def tags_of_append Let_def)
  have "ingest_process ?db' i = Some r" using assms(1) by simp
  then have "fst (delete_ingest_process_tag ?db' i (tag t) True)
      = Inr (filter (\<lambda>x. x \<noteq> tag t) (tags_of ?db' i))"
    by (simp add: delete_ingest_process_tag_def session_get_def tags_of_delete Let_def)
  moreover have "filter (\<lambda>x. x \<noteq> tag t) (tags_of ?db' i) = tags_of db i"
    using assms(2) by (auto simp: tags_of_append filter_id_conv)
  ultimately show ?thesis using add by simp
qed

theorem add_then_delete_fresh_tag_witness:
  "ingest_process db0 1 = Some row1
    \<and> tag \<lparr>tag = ''beta''\<rparr> \<notin> set (tags_of db0 1)
    \<and> fst (add_ingest_process_tag db0 1 \<lparr>tag = ''beta''\<rparr> True) = Inr [''alpha'', ''beta'']
    \<and> fst (delete_ingest_process_tag
              (snd (add_ingest_process_tag db0 1 \<lparr>tag = ''beta''\<rparr> True)) 1 ''beta'' True)
        = Inr [''alpha'']"
proof -
  note h = ingest_process_db0 and t = tags_of_db0
  then have n: "tag \<lparr>tag = ''beta''\<rparr> \<notin> set (tags_of db0 1)" by simp
  from add_then_delete_fresh_tag [OF h n] h t show ?thesis by simp
qed

section \<open>Listing objects\<close>

text \<open>
  C7.  For every existing process whose object group holds no object, the
  objects-listing call returns the empty list and makes no call to the object
  store: the client is not constructed and no URL is requested.
\<close>

theorem empty_group_makes_no_store_call:
  assumes "ingest_process db i = Some r" and "r ''object_group_id'' = Some (PInt og)"
    and "og \<in> set (object_group db)" and "objects_of db og = []"
  shows "get_ingest_process_objects st db i = (Inr [], [])"
  using assms by (simp add: get_ingest_process_objects_def)

theorem empty_group_makes_no_store_call_witness:
  "ingest_process db0 1 = Some row1
    \<and> row1 ''object_group_id'' = Some (PInt 1)
    \<and> 1 \<in> set (object_group db0)
    \<and> objects_of db0 1 = []
    \<and> get_ingest_process_objects store0 db0 1 = (Inr [], [])"
proof -
  note h1 = ingest_process_db0
  have h2: "row1 ''object_group_id'' = Some (PInt 1)" by (simp add: row1_def)
  have h3: "1 \<in> set (object_group db0)" by (simp add: db0_def)
  have h4: "objects_of db0 1 = []" by (simp add: objects_of_def db0_def)
  from empty_group_makes_no_store_call [OF h1 h2 h3 h4, of store0] h1 h2 h3 h4
  show ?thesis by simp
qed

text \<open>
  C5.  For every objects-listing call on a process whose object group holds at least
  one object: if the request for a pre-signed URL fails for one of the group's
  objects, with the client the handler builds from the first object's host and the
  two credentials, then the whole call fails with \<^verbatim>\<open>HTTPException\<close> of status 500
  whose detail is \<^verbatim>\<open>Failed to get secure url for object: \<close> followed by the text of
  the exception that was raised (a missing credential, the client's constructor, or
  a URL request for an object of the group); no list is returned.
\<close>

theorem presign_failure_fails_listing:
  assumes proc: "ingest_process db i = Some r"
    and grp: "r ''object_group_id'' = Some (PInt og)" "og \<in> set (object_group db)"
    and obj: "obj \<in> set (objects_of db og)"
    and fail: "\<And>ak sk. environ st ''access_key'' = Some ak \<Longrightarrow>
       environ st ''secret_key'' = Some sk \<Longrightarrow>
       isl (presigned_get_object st (host (hd (objects_of db og)), ak, sk) (bucket obj) (key obj))"
  shows "\<exists>cause. fst (get_ingest_process_objects st db i)
            = Inl (HTTPException 500 (''Failed to get secure url for object: '' @ cause))
        \<and> (cause = quote ''access_key'' \<or> cause = quote ''secret_key''
           \<or> (\<exists>m. Minio st m = Inl cause)
           \<or> (\<exists>m x. x \<in> set (objects_of db og)
                  \<and> presigned_get_object st m (bucket x) (key x) = Inl cause))"
proof -
  let ?objs = "objects_of db og"
  from obj obtain first_object rest where objs: "?objs = first_object # rest"
    by (cases ?objs) auto
  have handler: "fst (get_ingest_process_objects st db i)
      = (case fst (secure_urls st ?objs) of
           Inl e \<Rightarrow> Inl (failed_secure_url e) | Inr objs' \<Rightarrow> Inr objs')"
    using proc grp objs
    by (simp add: get_ingest_process_objects_def split: prod.splits sum.splits)
  have "\<exists>cause. fst (secure_urls st ?objs) = Inl cause
        \<and> (cause = quote ''access_key'' \<or> cause = quote ''secret_key''
           \<or> (\<exists>m. Minio st m = Inl cause)
           \<or> (\<exists>m x. x \<in> set ?objs \<and> presigned_get_object st m (bucket x) (key x) = Inl cause))"
  proof (cases "environ st ''access_key''")
    case None
    then show ?thesis by (simp add: secure_urls_def objs environ_getitem_def)
  next
    case ak: (Some ak)
    show ?thesis
    proof (cases "environ st ''secret_key''")
      case None
      with ak show ?thesis by (simp add: secure_urls_def objs environ_getitem_def)
    next
      case sk: (Some sk)
      let ?m = "(host first_object, ak, sk)"
      show ?thesis
      proof (cases "Minio st ?m")
        case (Inl e)
        with ak sk have "fst (secure_urls st ?objs) = Inl e"
          by (simp add: secure_urls_def objs environ_getitem_def)
        with Inl show ?thesis by blast
      next
        case (Inr u)
        from fail [OF ak sk] objs
        have "isl (presigned_get_object st ?m (bucket obj) (key obj))" by simp
        from attach_urls_fails [OF obj this] obtain e y where
          ey: "y \<in> set ?objs" "presigned_get_object st ?m (bucket y) (key y) = Inl e"
            "fst (attach_urls st ?m ?objs) = Inl e" by blast
        from ey(3) have "fst (secure_urls st ?objs) = Inl e"
          unfolding objs by (simp only: secure_urls_Cons [OF ak sk Inr])
        with ey show ?thesis by blast
      qed
    qed
  qed
  then obtain cause where
    c: "fst (secure_urls st ?objs) = Inl cause" and
    src: "cause = quote ''access_key'' \<or> cause = quote ''secret_key''
           \<or> (\<exists>m. Minio st m = Inl cause)
           \<or> (\<exists>m x. x \<in> set ?objs \<and> presigned_get_object st m (bucket x) (key x) = Inl cause)"
    by blast
  from c have "fst (get_ingest_process_objects st db i)
      = Inl (HTTPException 500 (''Failed to get secure url for object: '' @ cause))"
    unfolding handler by (simp add: failed_secure_url_def)
  with src show ?thesis by blast
qed

theorem presign_failure_fails_listing_witness:
  "ingest_process db_objects 1 = Some row1
    \<and> row1 ''object_group_id'' = Some (PInt 1)
    \<and> 1 \<in> set (object_group db_objects)
    \<and> object_b \<in> set (objects_of db_objects 1)
    \<and> isl (presigned_get_object store0 (''store.example.org'', ''AK'', ''SK'')
              (bucket object_b) (key object_b))
    \<and> fst (get_ingest_process_objects store0 db_objects 1)
        = Inl (HTTPException 500 ''Failed to get secure url for object: S3Error'')"
proof -
  have h1: "ingest_process db_objects 1 = Some row1" by (simp add: db_objects_def db0_def)
  have h2: "row1 ''object_group_id'' = Some (PInt 1)" by (simp add: row1_def)
  have h3: "1 \<in> set (object_group db_objects)" by (simp add: db_objects_def db0_def)
  have h4: "object_b \<in> set (objects_of db_objects 1)"
    by (simp add: objects_of_def db_objects_def db0_def)
  have h5: "isl (presigned_get_object store0 m (bucket object_b) (key object_b))" for m
    by (simp add: store0_def object_b_def)
  from presign_failure_fails_listing [OF h1 h2 h3 h4 h5] obtain cause where
    "fst (get_ingest_process_objects store0 db_objects 1)
       = Inl (HTTPException 500 (''Failed to get secure url for object: '' @ cause))" by blast
  moreover have "fst (get_ingest_process_objects store0 db_objects 1)
       = Inl (HTTPException 500 ''Failed to get secure url for object: S3Error'')"
    by (simp add: get_ingest_process_objects_def db_objects_def db0_def row1_def objects_of_def
        secure_urls_def environ_getitem_def store0_def object_a_def object_b_def
        failed_secure_url_def)
  ultimately show ?thesis using h1 h2 h3 h4 h5 by simp
qed

end
